theory Spec2Isabelle
  imports Main "HOL-Library.Log_Nat" "HOL-Library.Multiset" "HOL-Library.Product_Lexorder"
    "HOL-Library.Word"
begin

section \<open>JavaScript numbers\<close>

text \<open>
  The server is JavaScript: every number it handles is an IEEE 754 binary64 value, and
  \<open>+\<close>, \<open>*\<close> and \<open>/\<close> round their exact result to the nearest such value (ties to the
  even significand). A finite value is kept as the rational it denotes. The two zeros are one
  value here: the handlers never divide by a zero, and both zeros print alike, so the sign of a
  zero is not observable in what follows.
\<close>

datatype number = Finite rat | PosInfinity | NegInfinity | NaN

definition floor_log2 :: "rat \<Rightarrow> int" where
  \<comment> \<open>for \<open>0 < x\<close>: the \<open>k\<close> with \<open>2 powi k \<le> x < 2 powi (k + 1)\<close>\<close>
  "floor_log2 x = (case quotient_of x of (p, q) \<Rightarrow>
     (let d = bitlen p - bitlen q in if 2 powi d \<le> x then d else d - 1))"

definition round_half_even :: "rat \<Rightarrow> int" where
  "round_half_even r = (let f = \<lfloor>r\<rfloor>; d = r - of_int f in
     if d < 1 / 2 then f else if 1 / 2 < d then f + 1 else if even f then f else f + 1)"

definition round_double :: "rat \<Rightarrow> number" where
  \<comment> \<open>roundTiesToEven to binary64: 53 significant bits, least exponent \<open>- 1074\<close>,
      overflow to an infinity from \<open>2 powi 1024\<close> on\<close>
  "round_double x = (if x = 0 then Finite 0 else
     (let e = max (floor_log2 \<bar>x\<bar>) (- 1022) - 52;
          y = of_int (round_half_even (\<bar>x\<bar> / 2 powi e)) * 2 powi e
      in if 2 powi 1024 \<le> y then (if x < 0 then NegInfinity else PosInfinity)
         else Finite (sgn x * y)))"

definition is_double :: "rat \<Rightarrow> bool" where
  \<comment> \<open>the rationals that are binary64 values\<close>
  "is_double x \<longleftrightarrow>
     (\<exists>n j. x = of_int n * 2 powi j \<and> \<bar>n\<bar> < 2 ^ 53 \<and> - 1074 \<le> j \<and> j \<le> 971)"

fun js_add :: "number \<Rightarrow> number \<Rightarrow> number" where
  "js_add NaN y = NaN"
| "js_add x NaN = NaN"
| "js_add (Finite a) (Finite b) = round_double (a + b)"
| "js_add PosInfinity NegInfinity = NaN"
| "js_add NegInfinity PosInfinity = NaN"
| "js_add PosInfinity y = PosInfinity"
| "js_add NegInfinity y = NegInfinity"
| "js_add (Finite a) y = y"

definition signed_infinity :: "bool \<Rightarrow> number" where
  "signed_infinity negative = (if negative then NegInfinity else PosInfinity)"

fun js_mul :: "number \<Rightarrow> number \<Rightarrow> number" where
  "js_mul NaN y = NaN"
| "js_mul x NaN = NaN"
| "js_mul (Finite a) (Finite b) = round_double (a * b)"
| "js_mul (Finite a) PosInfinity = (if a = 0 then NaN else signed_infinity (a < 0))"
| "js_mul (Finite a) NegInfinity = (if a = 0 then NaN else signed_infinity (0 < a))"
| "js_mul PosInfinity (Finite b) = (if b = 0 then NaN else signed_infinity (b < 0))"
| "js_mul NegInfinity (Finite b) = (if b = 0 then NaN else signed_infinity (0 < b))"
| "js_mul PosInfinity PosInfinity = PosInfinity"
| "js_mul NegInfinity NegInfinity = PosInfinity"
| "js_mul PosInfinity NegInfinity = NegInfinity"
| "js_mul NegInfinity PosInfinity = NegInfinity"

fun js_div :: "number \<Rightarrow> number \<Rightarrow> number" where
  \<comment> \<open>a zero divisor is taken as \<open>+0\<close>; the handlers test the divisor before they divide\<close>
  "js_div NaN y = NaN"
| "js_div x NaN = NaN"
| "js_div (Finite a) (Finite b) =
     (if b = 0 then (if a = 0 then NaN else signed_infinity (a < 0)) else round_double (a / b))"
| "js_div (Finite a) y = Finite 0"
| "js_div PosInfinity (Finite b) = signed_infinity (b < 0)"
| "js_div NegInfinity (Finite b) = signed_infinity (0 \<le> b)"
| "js_div x y = NaN"

fun js_ge :: "number \<Rightarrow> number \<Rightarrow> bool" where
  \<comment> \<open>\<open>x >= y\<close>: false whenever an operand is NaN\<close>
  "js_ge NaN y = False"
| "js_ge x NaN = False"
| "js_ge PosInfinity y = True"
| "js_ge x NegInfinity = True"
| "js_ge (Finite a) (Finite b) = (b \<le> a)"
| "js_ge x y = False"

fun truthy :: "number \<Rightarrow> bool" where
  \<comment> \<open>ToBoolean on a number: only zero and NaN are falsy\<close>
  "truthy (Finite a) = (a \<noteq> 0)"
| "truthy NaN = False"
| "truthy x = True"

subsection \<open>Number.prototype.toFixed(2)\<close>

text \<open>
  \<open>toFixed\<close> returns a string. For a finite \<open>x\<close> below \<open>10 ^ 21\<close> in magnitude it takes the
  integer \<open>n\<close> with \<open>n / 100\<close> nearest to \<open>\<bar>x\<bar>\<close> (the larger one of two), writes its decimal
  digits, pads them with zeros to three and puts the point before the last two; a negative \<open>x\<close>
  gets a minus sign. For the other numbers it returns what \<open>String(x)\<close> returns; the
  exponent notation of a huge finite number is kept as \<open>ExponentText\<close>, its digits are not
  computed.
\<close>

datatype jstext = Text string | ExponentText rat

fun digits :: "nat \<Rightarrow> string" where
  "digits n = (if n < 10 then [''0123456789'' ! n]
     else digits (n div 10) @ [''0123456789'' ! (n mod 10)])"

declare digits.simps [simp del]

definition toFixed2 :: "number \<Rightarrow> jstext" where
  "toFixed2 x = (case x of
       NaN \<Rightarrow> Text ''NaN''
     | PosInfinity \<Rightarrow> Text ''Infinity''
     | NegInfinity \<Rightarrow> Text ''-Infinity''
     | Finite q \<Rightarrow>
         if 10 ^ 21 \<le> \<bar>q\<bar> then ExponentText q
         else
           (let s = (if q < 0 then ''-'' else '''');
                n = nat \<lfloor>\<bar>q\<bar> * 100 + 1 / 2\<rfloor>;
                m = digits n;
                m = (if length m \<le> 2 then replicate (3 - length m) CHR ''0'' @ m else m);
                k = length m
            in Text (s @ take (k - 2) m @ ''.'' @ drop (k - 2) m)))"

section \<open>Grade calculation\<close>

definition getGPA :: "number \<Rightarrow> number" where
  "getGPA percentage =
     (if js_ge percentage (Finite 85) then Finite 4
      else if js_ge percentage (Finite 75) then Finite (15 / 4)
      else if js_ge percentage (Finite 70) then Finite (7 / 2)
      else if js_ge percentage (Finite 65) then Finite 3
      else if js_ge percentage (Finite 60) then Finite (5 / 2)
      else if js_ge percentage (Finite 50) then Finite 2
      else Finite 0)"

definition getGrade :: "number \<Rightarrow> string" where
  "getGrade percentage =
     (if js_ge percentage (Finite 85) then ''A+''
      else if js_ge percentage (Finite 75) then ''A''
      else if js_ge percentage (Finite 70) then ''B+''
      else if js_ge percentage (Finite 65) then ''B''
      else if js_ge percentage (Finite 60) then ''C+''
      else if js_ge percentage (Finite 50) then ''C''
      else ''F'')"

section \<open>Grade records and the cumulative GPA\<close>

text \<open>
  The \<open>GradeRecord\<close> documents of the database. The database is assumed to answer: a
  \<open>catch\<close> branch is entered only by an error that the request itself causes (a value that
  cannot be cast, a document that fails validation), not by a failure of the connection.
\<close>

type_synonym object_id = nat

record grade_record =
  g_id :: object_id
  g_userId :: string
  course :: string
  score :: number
  creditHours :: number
  grade :: string
  gpa :: number
  g_createdAt :: int

datatype error =
    NotFound  \<comment> \<open>status 404, "... not found or access denied"\<close>
  | ValidationError  \<comment> \<open>a \<open>save()\<close> that the schema's validators reject\<close>
  | UpdateError  \<comment> \<open>status 400, "Update error": the \<open>catch\<close> of the update handler\<close>
  | DeletionError  \<comment> \<open>status 500, "Deletion error": the \<open>catch\<close> of the soft delete handler\<close>
  | PermanentDeletionError  \<comment> \<open>status 500, "Permanent deletion error"\<close>

text \<open>
  \<open>POST /api/grades\<close>: grade and grade point are computed from the score and stored with
  the record. The schema requires \<open>userId\<close>, \<open>course\<close>, \<open>score\<close> and \<open>creditHours\<close>
  (a required string must not be empty); it puts no bound on \<open>creditHours\<close>. A field the
  request leaves out is \<open>None\<close>; \<open>getGrade(undefined)\<close> compares like NaN.
\<close>

definition post_grade ::
  "grade_record list \<Rightarrow> string \<Rightarrow> object_id \<Rightarrow> int \<Rightarrow> string option \<Rightarrow> number option \<Rightarrow>
     number option \<Rightarrow> (error + grade_record) \<times> grade_record list" where
  "post_grade db userId new_id now b_course b_score b_creditHours =
     (let grade = getGrade (case b_score of None \<Rightarrow> NaN | Some s \<Rightarrow> s);
          gpa = getGPA (case b_score of None \<Rightarrow> NaN | Some s \<Rightarrow> s)
      in case (b_course, b_score, b_creditHours) of
           (Some c, Some s, Some h) \<Rightarrow>
             if userId = [] \<or> c = [] \<or> s = NaN \<or> h = NaN then (Inl ValidationError, db)
             else
               (let savedRecord = \<lparr>g_id = new_id, g_userId = userId, course = c, score = s,
                      creditHours = h, grade = grade, gpa = gpa, g_createdAt = now\<rparr>
                in (Inr savedRecord, db @ [savedRecord]))
         | _ \<Rightarrow> (Inl ValidationError, db))"

text \<open>\<open>GET /api/gpa\<close>: the reduce over the user's records, the guarded division, \<open>toFixed(2)\<close>.\<close>

record acc =
  totalGPA :: number
  totalCredit :: number

definition reduce_step :: "acc \<Rightarrow> grade_record \<Rightarrow> acc" where
  "reduce_step acc record =
     \<lparr>totalGPA = js_add (totalGPA acc) (js_mul (gpa record) (creditHours record)),
      totalCredit = js_add (totalCredit acc) (creditHours record)\<rparr>"

datatype jsvalue = Number number | String jstext

record gpa_response =
  res_gpa :: jsvalue
  res_creditTotal :: jsvalue

definition finalGPA :: "acc \<Rightarrow> number" where
  "finalGPA a = (if truthy (totalCredit a) then js_div (totalGPA a) (totalCredit a) else Finite 0)"

definition cumulative_gpa :: "grade_record list \<Rightarrow> gpa_response" where
  "cumulative_gpa records =
     (if length records = 0 then \<lparr>res_gpa = Number (Finite 0), res_creditTotal = Number (Finite 0)\<rparr>
      else
        (let a = foldl reduce_step \<lparr>totalGPA = Finite 0, totalCredit = Finite 0\<rparr> records
         in \<lparr>res_gpa = String (toFixed2 (finalGPA a)), res_creditTotal = Number (totalCredit a)\<rparr>))"

definition get_gpa :: "grade_record list \<Rightarrow> string \<Rightarrow> gpa_response" where
  "get_gpa db userId = cumulative_gpa (filter (\<lambda>r. g_userId r = userId) db)"

subsection \<open>The aggregation as the specification words it\<close>

text \<open>
  The credit total is the sum of the credit hours, the weighted sum is the sum of grade point
  times credit hours, both summed from 0 in the order of the records; the GPA is their quotient
  when the credit total is positive and 0 otherwise, rounded to two decimals and returned as
  a number.
\<close>

definition js_sum :: "number list \<Rightarrow> number" where
  "js_sum xs = foldl js_add (Finite 0) xs"




section \<open>JavaScript strings\<close>

text \<open>
  A JavaScript string is a sequence of 16-bit code units. The note handlers look at the
  characters of their strings (the schema trims the course tag, the driver reads an id as
  hexadecimal digits), so every string of the note part is the list of its code units.
  \<open>js\<close> gives the code units of a literal. The grade handlers only store their strings and
  compare them as wholes, which the strings of HOL do as well.
\<close>

type_synonym code_unit = "16 word"

type_synonym jsstring = "code_unit list"

definition js :: "string \<Rightarrow> jsstring" where
  "js s = map (\<lambda>c. of_nat (of_char c)) s"

definition is_whitespace :: "code_unit \<Rightarrow> bool" where
  \<comment> \<open>what \<open>String.prototype.trim\<close> strips: the WhiteSpace and LineTerminator code points
      of ECMAScript (tab, vertical tab, form feed, space, no-break space, the Unicode space
      separators, U+FEFF; line feed, carriage return, U+2028, U+2029)\<close>
  "is_whitespace c \<longleftrightarrow> c \<in> set [0x0009, 0x000A, 0x000B, 0x000C, 0x000D, 0x0020, 0x00A0, 0x1680,
     0x2000, 0x2001, 0x2002, 0x2003, 0x2004, 0x2005, 0x2006, 0x2007, 0x2008, 0x2009, 0x200A,
     0x2028, 0x2029, 0x202F, 0x205F, 0x3000, 0xFEFF]"

definition trim :: "jsstring \<Rightarrow> jsstring" where
  "trim s = rev (dropWhile is_whitespace (rev (dropWhile is_whitespace s)))"

fun string_truthy :: "jsstring option \<Rightarrow> bool" where
  \<comment> \<open>ToBoolean: \<open>undefined\<close>, \<open>null\<close> and the empty string are falsy\<close>
  "string_truthy None = False"
| "string_truthy (Some s) = (s \<noteq> [])"

section \<open>Notes\<close>

text \<open>
  A stored note. \<open>courseTag\<close> is \<open>None\<close> in a document whose tag is null or missing. Request
  fields are options, \<open>None\<close> for a field the request leaves out (\<open>undefined\<close>); a field
  that is there has the type the schema gives it. The id of a stored note is an object id, a
  number of 96 bits; the id of a request is the string of the URL.
\<close>

record Note =
  note_id :: object_id
  title :: jsstring
  content :: jsstring
  courseTag :: "jsstring option"
  isPinned :: bool
  isArchived :: bool
  isDeleted :: bool
  userId :: jsstring
  createdAt :: int

record note_body =
  b_title :: "jsstring option"
  b_content :: "jsstring option"
  b_courseTag :: "jsstring option"
  b_isPinned :: "bool option"
  b_isArchived :: "bool option"
  b_isDeleted :: "bool option"

subsection \<open>The schema and the queries of the object mapper\<close>

text \<open>
  \<open>courseTag: { type: String, trim: true, default: "General" }\<close>. The default is applied
  when a document is built and the path is \<open>undefined\<close>, and only then. \<open>trim\<close> is a setter
  that calls \<open>String.prototype.trim\<close>: it runs on the value a document is built with, on the
  value of a \<open>$set\<close> and on the value a query filter compares with.

  The mapper casts \<open>_id\<close> in a filter to an object id before it queries. A string is cast
  when it consists of 24 hexadecimal digits, in upper or lower case (the constructor of the
  current driver; older drivers also took a string of 12 bytes). For any other string the
  cast throws, the query is not run, and the \<open>catch\<close> of the handler answers.
\<close>

definition hex_value :: "code_unit \<Rightarrow> nat option" where
  "hex_value c =
     (if 0x30 \<le> c \<and> c \<le> 0x39 then Some (unat c - 0x30)
      else if 0x61 \<le> c \<and> c \<le> 0x66 then Some (unat c - 0x57)
      else if 0x41 \<le> c \<and> c \<le> 0x46 then Some (unat c - 0x37)
      else None)"

fun parse_hex :: "nat \<Rightarrow> jsstring \<Rightarrow> nat option" where
  "parse_hex a [] = Some a"
| "parse_hex a (c # cs) =
     (case hex_value c of None \<Rightarrow> None | Some d \<Rightarrow> parse_hex (16 * a + d) cs)"

definition castObjectId :: "jsstring \<Rightarrow> object_id option" where
  \<comment> \<open>\<open>None\<close>: the cast throws a CastError\<close>
  "castObjectId s = (if length s = 24 then parse_hex 0 s else None)"

record note_filter =
  f_id :: "object_id option"
  f_userId :: "jsstring option"
  f_courseTag :: "jsstring option"
  f_isArchived :: "bool option"
  f_isDeleted :: "bool option"

definition cast_filter :: "note_filter \<Rightarrow> note_filter" where
  \<comment> \<open>the setters of the string paths; the id of a \<open>note_filter\<close> is already cast\<close>
  "cast_filter f = f\<lparr>f_courseTag := map_option trim (f_courseTag f)\<rparr>"

definition matches :: "note_filter \<Rightarrow> Note \<Rightarrow> bool" where
  \<comment> \<open>every condition of the filter is an equality, and all of them must hold\<close>
  "matches f n \<longleftrightarrow>
     (case f_id f of None \<Rightarrow> True | Some i \<Rightarrow> note_id n = i) \<and>
     (case f_userId f of None \<Rightarrow> True | Some u \<Rightarrow> userId n = u) \<and>
     (case f_courseTag f of None \<Rightarrow> True | Some t \<Rightarrow> courseTag n = Some t) \<and>
     (case f_isArchived f of None \<Rightarrow> True | Some b \<Rightarrow> isArchived n = b) \<and>
     (case f_isDeleted f of None \<Rightarrow> True | Some b \<Rightarrow> isDeleted n = b)"

definition find_docs :: "Note list \<Rightarrow> note_filter \<Rightarrow> Note list" where
  "find_docs db f = filter (matches (cast_filter f)) db"

definition sort_pinned_newest :: "Note list \<Rightarrow> Note list" where
  \<comment> \<open>\<open>.sort({ isPinned: -1, createdAt: -1 })\<close>: both keys descending, \<open>true\<close> above \<open>false\<close>\<close>
  "sort_pinned_newest ns = sort_key (\<lambda>n. (\<not> isPinned n, - createdAt n)) ns"

record update_fields =
  u_title :: "jsstring option"
  u_content :: "jsstring option"
  u_courseTag :: "jsstring option"
  u_isPinned :: "bool option"
  u_isArchived :: "bool option"
  u_isDeleted :: "bool option"

definition no_fields :: update_fields where
  "no_fields = \<lparr>u_title = None, u_content = None, u_courseTag = None, u_isPinned = None,
     u_isArchived = None, u_isDeleted = None\<rparr>"

definition apply_set :: "update_fields \<Rightarrow> Note \<Rightarrow> Note" where
  \<comment> \<open>\<open>$set\<close>: each field of the update replaces that field of the document\<close>
  "apply_set u n =
     n\<lparr>title := (case u_title u of None \<Rightarrow> title n | Some v \<Rightarrow> v),
       content := (case u_content u of None \<Rightarrow> content n | Some v \<Rightarrow> v),
       courseTag := (case u_courseTag u of None \<Rightarrow> courseTag n | Some v \<Rightarrow> Some (trim v)),
       isPinned := (case u_isPinned u of None \<Rightarrow> isPinned n | Some v \<Rightarrow> v),
       isArchived := (case u_isArchived u of None \<Rightarrow> isArchived n | Some v \<Rightarrow> v),
       isDeleted := (case u_isDeleted u of None \<Rightarrow> isDeleted n | Some v \<Rightarrow> v)\<rparr>"

fun update_first :: "(Note \<Rightarrow> bool) \<Rightarrow> (Note \<Rightarrow> Note) \<Rightarrow> Note list \<Rightarrow> Note option \<times> Note list" where
  "update_first P g [] = (None, [])"
| "update_first P g (n # ns) =
     (if P n then (Some (g n), g n # ns)
      else (case update_first P g ns of (r, ns') \<Rightarrow> (r, n # ns')))"

definition findOneAndUpdate ::
  "Note list \<Rightarrow> note_filter \<Rightarrow> update_fields \<Rightarrow> Note option \<times> Note list" where
  \<comment> \<open>with \<open>{ new: true }\<close>: the first matching document is updated and returned as updated;
      \<open>null\<close> when no document matches\<close>
  "findOneAndUpdate db f u = update_first (matches (cast_filter f)) (apply_set u) db"

fun remove_first :: "(Note \<Rightarrow> bool) \<Rightarrow> Note list \<Rightarrow> Note option \<times> Note list" where
  "remove_first P [] = (None, [])"
| "remove_first P (n # ns) =
     (if P n then (Some n, ns)
      else (case remove_first P ns of (r, ns') \<Rightarrow> (r, n # ns')))"

definition findOneAndDelete :: "Note list \<Rightarrow> note_filter \<Rightarrow> Note option \<times> Note list" where
  "findOneAndDelete db f = remove_first (matches (cast_filter f)) db"

definition distinct_courseTag :: "Note list \<Rightarrow> note_filter \<Rightarrow> jsstring option list" where
  \<comment> \<open>\<open>Note.distinct("courseTag", filter)\<close>: the different values of the field among the matching
      documents\<close>
  "distinct_courseTag db f = remdups (map courseTag (find_docs db f))"


subsection \<open>The handlers\<close>

text \<open>
  Each handler takes the collection and the identity \<open>req.user.id\<close> that the authentication
  middleware resolved, and returns its response; a handler that writes also returns the
  collection after it. \<open>view\<close> and \<open>courseTag\<close> are the query parameters of the request.
  \<open>Inl NotFound\<close> is the status 404 with the message "Note not found or access denied". The
  create handler has no \<open>catch\<close>: when the validation fails nothing is stored and no note
  is returned, which is \<open>Inl ValidationError\<close> here. The update and the two delete handlers
  run their query inside \<open>try\<close>: when the id of the request cannot be cast, the query throws
  and the \<open>catch\<close> answers with status 400 (update) or 500 (the deletes), the collection
  untouched.
\<close>

definition get_notes ::
  "Note list \<Rightarrow> jsstring \<Rightarrow> jsstring option \<Rightarrow> jsstring option \<Rightarrow> Note list" where
  "get_notes db user_id view tag =
     (let filter0 = \<lparr>f_id = None, f_userId = Some user_id, f_courseTag = None,
            f_isArchived = None, f_isDeleted = None\<rparr>;
          filter1 =
            (if view = Some (js ''deleted'') then filter0\<lparr>f_isDeleted := Some True\<rparr>
             else if view = Some (js ''archive'')
               then filter0\<lparr>f_isArchived := Some True, f_isDeleted := Some False\<rparr>
             else if string_truthy tag
               then filter0\<lparr>f_courseTag := tag, f_isArchived := Some False, f_isDeleted := Some False\<rparr>
             else filter0\<lparr>f_isArchived := Some False, f_isDeleted := Some False\<rparr>)
      in sort_pinned_newest (find_docs db filter1))"


definition owned :: "jsstring \<Rightarrow> jsstring \<Rightarrow> note_filter option" where
  \<comment> \<open>\<open>{ _id: req.params.id, userId: req.user.id }\<close> with its id cast; \<open>None\<close> when the cast
      throws\<close>
  "owned req_id user_id =
     (case castObjectId req_id of
        None \<Rightarrow> None
      | Some i \<Rightarrow> Some \<lparr>f_id = Some i, f_userId = Some user_id, f_courseTag = None,
                    f_isArchived = None, f_isDeleted = None\<rparr>)"

definition put_note ::
  "Note list \<Rightarrow> jsstring \<Rightarrow> jsstring \<Rightarrow> note_body \<Rightarrow> (error + Note) \<times> Note list" where
  "put_note db user_id req_id body =
     (let updateFields = no_fields;
          updateFields = (case b_title body of None \<Rightarrow> updateFields
                          | Some v \<Rightarrow> updateFields\<lparr>u_title := Some v\<rparr>);
          updateFields = (case b_content body of None \<Rightarrow> updateFields
                          | Some v \<Rightarrow> updateFields\<lparr>u_content := Some v\<rparr>);
          updateFields = (case b_courseTag body of None \<Rightarrow> updateFields
                          | Some v \<Rightarrow> updateFields\<lparr>u_courseTag := Some v\<rparr>);
          updateFields = (case b_isPinned body of None \<Rightarrow> updateFields
                          | Some v \<Rightarrow> updateFields\<lparr>u_isPinned := Some v\<rparr>);
          updateFields = (case b_isArchived body of None \<Rightarrow> updateFields
                          | Some v \<Rightarrow> updateFields\<lparr>u_isArchived := Some v\<rparr>);
          updateFields = (case b_isDeleted body of None \<Rightarrow> updateFields
                          | Some v \<Rightarrow> updateFields\<lparr>u_isDeleted := Some v\<rparr>)
      in case owned req_id user_id of
           None \<Rightarrow> (Inl UpdateError, db)
         | Some filter1 \<Rightarrow>
             (case findOneAndUpdate db filter1 updateFields of
                (None, db') \<Rightarrow> (Inl NotFound, db')
              | (Some updatedNote, db') \<Rightarrow> (Inr updatedNote, db')))"

definition delete_note ::
  "Note list \<Rightarrow> jsstring \<Rightarrow> jsstring \<Rightarrow> (error + unit) \<times> Note list" where
  "delete_note db user_id req_id =
     (case owned req_id user_id of
        None \<Rightarrow> (Inl DeletionError, db)
      | Some filter1 \<Rightarrow>
          (case findOneAndUpdate db filter1 (no_fields\<lparr>u_isDeleted := Some True\<rparr>) of
             (None, db') \<Rightarrow> (Inl NotFound, db')
           | (Some noteToTrash, db') \<Rightarrow> (Inr (), db')))"

definition delete_note_permanent ::
  "Note list \<Rightarrow> jsstring \<Rightarrow> jsstring \<Rightarrow> (error + unit) \<times> Note list" where
  "delete_note_permanent db user_id req_id =
     (case owned req_id user_id of
        None \<Rightarrow> (Inl PermanentDeletionError, db)
      | Some filter1 \<Rightarrow>
          (case findOneAndDelete db filter1 of
             (None, db') \<Rightarrow> (Inl NotFound, db')
           | (Some deletedNote, db') \<Rightarrow> (Inr (), db')))"

definition get_tags :: "Note list \<Rightarrow> jsstring \<Rightarrow> jsstring option list" where
  "get_tags db user_id =
     (let tags = distinct_courseTag db \<lparr>f_id = None, f_userId = Some user_id, f_courseTag = None,
            f_isArchived = Some False, f_isDeleted = Some False\<rparr>
      in filter string_truthy tags)"

definition restore :: note_body where
  \<comment> \<open>the body \<open>{ "isDeleted": false }\<close>\<close>
  "restore = \<lparr>b_title = None, b_content = None, b_courseTag = None, b_isPinned = None,
     b_isArchived = None, b_isDeleted = Some False\<rparr>"

subsection \<open>The note views as the specification words them\<close>

definition spec_selects ::
  "jsstring \<Rightarrow> jsstring option \<Rightarrow> jsstring option \<Rightarrow> Note \<Rightarrow> bool" where
  \<comment> \<open>the selection rule with "courseTag given" read as: the parameter is in the query, and
      "courseTag equal to the tag" as equality with the parameter as it is\<close>
  "spec_selects user_id view tag n \<longleftrightarrow>
     userId n = user_id \<and>
     (if view = Some (js ''deleted'') then isDeleted n
      else if view = Some (js ''archive'') then isArchived n \<and> \<not> isDeleted n
      else (case tag of
              Some t \<Rightarrow> courseTag n = Some t \<and> \<not> isArchived n \<and> \<not> isDeleted n
            | None \<Rightarrow> \<not> isArchived n \<and> \<not> isDeleted n))"

definition pinned_newest_first :: "Note \<Rightarrow> Note \<Rightarrow> bool" where
  \<comment> \<open>\<open>a\<close> may stand before \<open>b\<close>: pinned before unpinned, newer before older within a group\<close>
  "pinned_newest_first a b \<longleftrightarrow>
     (isPinned a \<and> \<not> isPinned b) \<or> (isPinned a = isPinned b \<and> createdAt b \<le> createdAt a)"

subsection \<open>Sample documents\<close>

definition limits_note :: Note where
  "limits_note = \<lparr>note_id = 1, title = js ''Limits'', content = js ''epsilon and delta'',
     courseTag = Some (js ''Math''), isPinned = False, isArchived = False, isDeleted = False,
     userId = js ''alice'', createdAt = 1000\<rparr>"

definition pinned_note :: Note where
  "pinned_note = \<lparr>note_id = 2, title = js ''Exam dates'', content = js ''June'',
     courseTag = Some (js ''General''), isPinned = True, isArchived = False, isDeleted = False,
     userId = js ''alice'', createdAt = 500\<rparr>"

definition bobs_note :: Note where
  "bobs_note = \<lparr>note_id = 3, title = js ''Reading list'', content = js ''chapter 4'',
     courseTag = Some (js ''History''), isPinned = False, isArchived = False, isDeleted = False,
     userId = js ''bob'', createdAt = 700\<rparr>"


definition id_1 :: jsstring where
  \<comment> \<open>the id of \<open>limits_note\<close> as a request writes it\<close>
  "id_1 = js ''000000000000000000000001''"

definition id_3 :: jsstring where
  \<comment> \<open>the id of \<open>bobs_note\<close>\<close>
  "id_3 = js ''000000000000000000000003''"

definition id_9 :: jsstring where
  \<comment> \<open>a well-formed id that no sample note has\<close>
  "id_9 = js ''000000000000000000000009''"

definition nbsp :: code_unit where
  \<comment> \<open>U+00A0, the no-break space\<close>
  "nbsp = 0x00A0"

subsection \<open>Sample grade records\<close>

definition credit_record :: "object_id \<Rightarrow> number \<Rightarrow> grade_record" where
  \<comment> \<open>what \<open>POST /api/grades\<close> stores for a score of 90 and the given credit hours\<close>
  "credit_record i h = \<lparr>g_id = i, g_userId = ''alice'', course = ''Math'', score = Finite 90,
     creditHours = h, grade = ''A+'', gpa = Finite 4, g_createdAt = 1000\<rparr>"

definition tenths :: "int \<Rightarrow> number" where
  \<comment> \<open>the number that the literals \<open>0.1\<close>, \<open>0.2\<close>, \<open>0.3\<close> denote\<close>
  "tenths n = round_double (of_int n / 10)"

section \<open>JavaScript numbers: properties\<close>

lemma int_pow2_bitlen:
  assumes "0 < (p::int)"
  shows "(2::rat) powi (bitlen p - 1) \<le> of_int p" "of_int p < (2::rat) powi (bitlen p)"
proof -
  from bitlen_bounds [OF assms]
  have a: "2 ^ nat (bitlen p - 1) \<le> p" and b: "p < 2 ^ nat (bitlen p)" by auto
  have pos: "1 \<le> bitlen p" using assms by (simp add: bitlen_alt_def)
  have "(of_int (2 ^ nat (bitlen p - 1)) :: rat) \<le> of_int p" using a by (simp only: of_int_le_iff)
  then show "(2::rat) powi (bitlen p - 1) \<le> of_int p"
    using pos by (simp add: power_int_def)
  have "(of_int p :: rat) < of_int (2 ^ nat (bitlen p))" using b by (simp only: of_int_less_iff)
  then show "of_int p < (2::rat) powi (bitlen p)"
    using pos by (simp add: power_int_def)
qed

lemma floor_log2_bounds:
  assumes "0 < x"
  shows "2 powi (floor_log2 x) \<le> x \<and> x < 2 powi (floor_log2 x + 1)"
proof -
  obtain p q where pq: "quotient_of x = (p, q)" by force
  have q: "0 < q" using quotient_of_denom_pos [OF pq] .
  have x: "x = of_int p / of_int q" using quotient_of_div [OF pq] .
  have p: "0 < p" using assms q x by (simp add: zero_less_divide_iff)
  let ?d = "bitlen p - bitlen q"
  have lo: "(2::rat) powi (?d - 1) \<le> x"
  proof -
    have "(2::rat) powi (?d - 1) = 2 powi (bitlen p - 1) / 2 powi (bitlen q)"
      by (simp add: power_int_diff)
    also have "\<dots> \<le> of_int p / 2 powi (bitlen q)"
      using int_pow2_bitlen(1) [OF p] by (simp add: divide_right_mono)
    also have "\<dots> \<le> of_int p / of_int q"
      using int_pow2_bitlen(2) [OF q] p q by (simp add: frac_le)
    finally show ?thesis by (simp add: x)
  qed
  have hi: "x < (2::rat) powi (?d + 1)"
  proof -
    have "x < 2 powi (bitlen p) / of_int q"
      using int_pow2_bitlen(2) [OF p] q by (simp add: x divide_strict_right_mono)
    also have "\<dots> \<le> 2 powi (bitlen p) / 2 powi (bitlen q - 1)"
      using int_pow2_bitlen(1) [OF q] by (simp add: frac_le)
    also have "\<dots> = 2 powi (?d + 1)"
      by (simp add: power_int_diff power_int_add)
    finally show ?thesis .
  qed
  show ?thesis
  proof (cases "2 powi ?d \<le> x")
    case True
    then show ?thesis using hi by (simp add: floor_log2_def pq)
  next
    case False
    then show ?thesis using lo by (simp add: floor_log2_def pq)
  qed
qed

lemma pow2_less_cancel:
  assumes "(2::rat) powi a < 2 powi b"
  shows "a < b"
proof (rule ccontr)
  assume "\<not> a < b"
  then have "b \<le> a" by simp
  then have "(2::rat) powi b \<le> 2 powi a" by (rule power_int_increasing) simp
  with assms show False by simp
qed

lemma floor_log2_unique:
  assumes "0 < x" "2 powi k \<le> x" "x < 2 powi (k + 1)"
  shows "floor_log2 x = k"
proof -
  let ?f = "floor_log2 x"
  from floor_log2_bounds [OF assms(1)]
  have a: "2 powi ?f \<le> x" and b: "x < 2 powi (?f + 1)" by auto
  have "(2::rat) powi k < 2 powi (?f + 1)" using assms(2) b by simp
  then have "k < ?f + 1" by (rule pow2_less_cancel)
  moreover have "(2::rat) powi ?f < 2 powi (k + 1)" using a assms(3) by simp
  then have "?f < k + 1" by (rule pow2_less_cancel)
  ultimately show ?thesis by simp
qed

lemma round_half_even_of_int [simp]: "round_half_even (of_int n) = n"
  by (simp add: round_half_even_def)

text \<open>A number that is a binary64 value is not changed by rounding.\<close>

lemma round_double_exact:
  assumes x: "x = of_int n * 2 powi j" and n: "\<bar>n\<bar> < 2 ^ 53" and j: "- 1074 \<le> j" "j \<le> 971"
  shows "round_double x = Finite x"
proof (cases "x = 0")
  case True
  then show ?thesis by (simp add: round_double_def)
next
  case False
  have ax: "\<bar>x\<bar> = of_int \<bar>n\<bar> * 2 powi j" by (simp add: x abs_mult)
  have pos: "0 < \<bar>x\<bar>" using False by simp
  define f where "f = floor_log2 \<bar>x\<bar>"
  define e where "e = max f (- 1022) - 52"
  have "(of_int \<bar>n\<bar> :: rat) < of_int (2 ^ 53)" using n by (simp only: of_int_less_iff)
  then have "\<bar>x\<bar> < 2 ^ 53 * 2 powi j" by (simp add: ax)
  also have "\<dots> = (2::rat) powi (53 + j)" by (simp add: power_int_add)
  finally have bound: "\<bar>x\<bar> < 2 powi (53 + j)" .
  have "2 powi f \<le> \<bar>x\<bar>" using floor_log2_bounds [OF pos] by (simp add: f_def)
  with bound have "(2::rat) powi f < 2 powi (53 + j)" by simp
  then have "f < 53 + j" by (rule pow2_less_cancel)
  then have ej: "e \<le> j" using j by (simp add: e_def)
  have "(2::rat) powi j = 2 powi (j - e) * 2 powi e" by (simp flip: power_int_add)
  also have "(2::rat) powi (j - e) = of_int (2 ^ nat (j - e))" using ej by (simp add: power_int_def)
  finally have pj: "(2::rat) powi j = of_int (2 ^ nat (j - e)) * 2 powi e" .
  have quot: "\<bar>x\<bar> / 2 powi e = of_int (\<bar>n\<bar> * 2 ^ nat (j - e))"
    by (simp add: ax pj)
  have y: "of_int (round_half_even (\<bar>x\<bar> / 2 powi e)) * 2 powi e = \<bar>x\<bar>"
    unfolding quot round_half_even_of_int by (simp add: ax pj)
  have "(2::rat) powi (53 + j) \<le> 2 powi 1024" using j by (intro power_int_increasing) simp_all
  with bound have small: "\<not> 2 powi 1024 \<le> \<bar>x\<bar>" by simp
  have "round_double x = Finite (sgn x * \<bar>x\<bar>)"
    using False small y unfolding round_double_def Let_def f_def [symmetric] e_def [symmetric]
    by (simp del: power_int_numeral)
  then show ?thesis by (simp add: mult_sgn_abs)
qed

lemma round_double_idem: "is_double x \<Longrightarrow> round_double x = Finite x"
  unfolding is_double_def using round_double_exact by blast

lemma round_double_int: "\<bar>n\<bar> < 2 ^ 53 \<Longrightarrow> round_double (of_int n) = Finite (of_int n)"
  using round_double_exact [of "of_int n" n 0] by simp

lemma round_double_quarters:
  "\<bar>n\<bar> < 2 ^ 53 \<Longrightarrow> round_double (of_int n / 4) = Finite (of_int n / 4)"
  using round_double_exact [of "of_int n / 4" n "- 2"] by simp

text \<open>Rounding a number in the normal range, once its binary exponent \<open>k\<close> is known.\<close>

lemma round_double_normal:
  assumes "2 powi k \<le> \<bar>x\<bar>" "\<bar>x\<bar> < 2 powi (k + 1)" "- 1022 \<le> k" "k \<le> 1022"
  shows "round_double x =
    Finite (sgn x * (of_int (round_half_even (\<bar>x\<bar> / 2 powi (k - 52))) * 2 powi (k - 52)))"
proof -
  have pos: "0 < \<bar>x\<bar>"
    using assms(1) by (meson less_le_trans zero_less_numeral zero_less_power_int)
  then have x0: "x \<noteq> 0" by simp
  have f: "floor_log2 \<bar>x\<bar> = k" using floor_log2_unique [OF pos assms(1,2)] .
  have e: "max k (- 1022) - 52 = k - 52" using assms(3) by simp
  let ?r = "\<bar>x\<bar> / 2 powi (k - 52)"
  have "?r < 2 powi (k + 1) / 2 powi (k - 52)"
    using assms(2) by (simp add: divide_strict_right_mono)
  also have "\<dots> = of_int (2 ^ 53)" by (simp flip: power_int_diff)
  finally have r: "?r < of_int (2 ^ 53)" .
  have "round_half_even ?r \<le> \<lfloor>?r\<rfloor> + 1" by (simp add: round_half_even_def Let_def)
  moreover have "\<lfloor>?r\<rfloor> < 2 ^ 53" using r by (simp add: floor_less_iff)
  ultimately have m: "round_half_even ?r \<le> 2 ^ 53" by linarith
  have "of_int (round_half_even ?r) * 2 powi (k - 52) \<le> of_int (2 ^ 53) * (2::rat) powi (k - 52)"
    using m by (intro mult_right_mono) (simp_all only: of_int_le_iff zero_le_power_int zero_le_numeral)
  also have "\<dots> = 2 powi (k + 1)" by (simp add: power_int_diff power_int_add)
  also have "\<dots> < 2 powi 1024" using assms(4) by (intro power_int_strict_increasing) simp_all
  finally have small: "\<not> (2::rat) powi 1024 \<le> of_int (round_half_even ?r) * 2 powi (k - 52)"
    by simp
  show ?thesis
    using x0 small unfolding round_double_def Let_def f e by (simp del: power_int_numeral)
qed

lemma floor_rat_numeral [simp]:
  "\<lfloor>(numeral a :: rat) / numeral b\<rfloor> = numeral a div numeral b"
  using floor_divide_of_int_eq [of "numeral a" "numeral b", where ?'a = rat] by simp

lemma round_double_numeral:
  "numeral k < (2::int) ^ 53 \<Longrightarrow> round_double (numeral k) = Finite (numeral k)"
  "numeral k < (2::int) ^ 53 \<Longrightarrow> round_double (- numeral k) = Finite (- numeral k)"
  using round_double_int [of "numeral k"] round_double_int [of "- numeral k"] by simp_all

lemma round_double_0 [simp]: "round_double 0 = Finite 0"
  by (simp add: round_double_def)

lemma round_double_1 [simp]: "round_double 1 = Finite 1"
  using round_double_int [of 1] by simp

section \<open>Grade calculation: properties\<close>





section \<open>JavaScript strings: properties\<close>

lemma of_char_less_256: "(of_char c :: nat) < 256"
proof -
  have "(of_char c :: nat) mod 256 < 256" by (rule mod_less_divisor) simp
  then show ?thesis by (simp only: of_char_mod_256)
qed

lemma unat_code_unit [simp]: "unat (of_nat (of_char c) :: code_unit) = of_char c"
proof (rule of_nat_inverse [OF refl])
  show "(of_char c :: nat) < 2 ^ LENGTH(16)"
    by (rule less_trans [OF of_char_less_256]) simp
qed

lemma js_inject [simp]: "js a = js b \<longleftrightarrow> a = b"
proof -
  have "inj (\<lambda>c::char. (of_nat (of_char c) :: code_unit))"
  proof (rule injI)
    fix x y :: char
    assume "(of_nat (of_char x) :: code_unit) = of_nat (of_char y)"
    then have "unat (of_nat (of_char x) :: code_unit) = unat (of_nat (of_char y) :: code_unit)"
      by (rule arg_cong)
    then show "x = y" by simp
  qed
  then show ?thesis unfolding js_def by (simp add: inj_map_eq_map)
qed

lemma js_Nil [simp]: "js s = [] \<longleftrightarrow> s = []" "[] = js s \<longleftrightarrow> s = []"
  by (auto simp: js_def)


lemma trim_Math: "trim (js ''Math'') = js ''Math''"
  by (simp add: trim_def js_def is_whitespace_def)

lemma trim_nbsp_Math: "trim (nbsp # js ''Math'') = js ''Math''"
  by (simp add: trim_def js_def is_whitespace_def nbsp_def)

lemma is_whitespace_nbsp: "is_whitespace nbsp"
  by (simp add: is_whitespace_def nbsp_def)

lemma castObjectId_id_1: "castObjectId id_1 = Some 1"
  by (simp add: castObjectId_def id_1_def js_def hex_value_def)

lemma castObjectId_id_3: "castObjectId id_3 = Some 3"
  by (simp add: castObjectId_def id_3_def js_def hex_value_def)

lemma castObjectId_id_9: "castObjectId id_9 = Some 9"
  by (simp add: castObjectId_def id_9_def js_def hex_value_def)

lemma castObjectId_123: "castObjectId (js ''123'') = None"
  by (simp add: castObjectId_def js_def)

section \<open>Notes: properties\<close>

lemma matches_owned [simp]:
  "matches (cast_filter \<lparr>f_id = Some i, f_userId = Some u, f_courseTag = None,
       f_isArchived = None, f_isDeleted = None\<rparr>) = (\<lambda>n. note_id n = i \<and> userId n = u)"
  by (rule ext) (simp add: matches_def cast_filter_def)

lemma update_first_none:
  "\<forall>n \<in> set ns. \<not> P n \<Longrightarrow> update_first P g ns = (None, ns)"
  by (induction ns) auto

lemma remove_first_none:
  "\<forall>n \<in> set ns. \<not> P n \<Longrightarrow> remove_first P ns = (None, ns)"
  by (induction ns) auto

lemma update_first_some:
  "List.find P ns = Some n \<Longrightarrow>
     \<exists>k < length ns. ns ! k = n \<and> (\<forall>j < k. \<not> P (ns ! j)) \<and>
       update_first P g ns = (Some (g n), ns[k := g n])"
proof (induction ns)
  case Nil
  then show ?case by simp
next
  case (Cons m ms)
  show ?case
  proof (cases "P m")
    case True
    with Cons.prems have "m = n" by simp
    with True show ?thesis by (intro exI [of _ 0]) simp
  next
    case False
    with Cons.prems have "List.find P ms = Some n" by simp
    from Cons.IH [OF this] obtain k where k: "k < length ms" "ms ! k = n"
      "\<forall>j < k. \<not> P (ms ! j)" "update_first P g ms = (Some (g n), ms[k := g n])"
      by blast
    have "\<forall>j < Suc k. \<not> P ((m # ms) ! j)"
      using False k(3) by (auto simp: less_Suc_eq_0_disj)
    with k False show ?thesis by (intro exI [of _ "Suc k"]) simp
  qed
qed

lemma put_note_fields:
  "put_note db u s body =
     (case castObjectId s of
        None \<Rightarrow> (Inl UpdateError, db)
      | Some i \<Rightarrow>
          (case update_first (\<lambda>n. note_id n = i \<and> userId n = u)
             (apply_set \<lparr>u_title = b_title body, u_content = b_content body,
                u_courseTag = b_courseTag body, u_isPinned = b_isPinned body,
                u_isArchived = b_isArchived body, u_isDeleted = b_isDeleted body\<rparr>) db of
             (None, db') \<Rightarrow> (Inl NotFound, db')
           | (Some updatedNote, db') \<Rightarrow> (Inr updatedNote, db')))"
  by (simp add: put_note_def owned_def findOneAndUpdate_def no_fields_def Let_def
      split: option.split)

lemma update_first_twice:
  assumes P: "\<And>m. P (g m) = P m"
  shows "update_first P h (snd (update_first P g ns)) = update_first P (\<lambda>m. h (g m)) ns"
proof (induction ns)
  case Nil
  show ?case by simp
next
  case (Cons n ns)
  show ?case
  proof (cases "P n")
    case True
    then have "P (g n)" by (simp only: P)
    with True show ?thesis by simp
  next
    case False
    obtain r ns' where g: "update_first P g ns = (r, ns')" by force
    obtain r2 ns2 where h: "update_first P (\<lambda>m. h (g m)) ns = (r2, ns2)" by force
    from Cons.IH have "update_first P h ns' = (r2, ns2)" by (simp add: g h)
    with False show ?thesis by (simp add: g h)
  qed
qed

lemma delete_note_fields:
  "delete_note db u s =
     (case castObjectId s of
        None \<Rightarrow> (Inl DeletionError, db)
      | Some i \<Rightarrow>
          (case update_first (\<lambda>n. note_id n = i \<and> userId n = u) (\<lambda>n. n\<lparr>isDeleted := True\<rparr>) db of
             (None, db') \<Rightarrow> (Inl NotFound, db')
           | (Some noteToTrash, db') \<Rightarrow> (Inr (), db')))"
proof -
  have "apply_set (no_fields\<lparr>u_isDeleted := Some True\<rparr>) = (\<lambda>n. n\<lparr>isDeleted := True\<rparr>)"
    by (rule ext) (simp add: apply_set_def no_fields_def)
  then show ?thesis
    by (simp add: delete_note_def owned_def findOneAndUpdate_def split: option.split)
qed

lemma delete_note_permanent_fields:
  "delete_note_permanent db u s =
     (case castObjectId s of
        None \<Rightarrow> (Inl PermanentDeletionError, db)
      | Some i \<Rightarrow>
          (case remove_first (\<lambda>n. note_id n = i \<and> userId n = u) db of
             (None, db') \<Rightarrow> (Inl NotFound, db')
           | (Some deletedNote, db') \<Rightarrow> (Inr (), db')))"
  by (simp add: delete_note_permanent_def owned_def findOneAndDelete_def split: option.split)

lemma put_restore_fields:
  "put_note db u s restore =
     (case castObjectId s of
        None \<Rightarrow> (Inl UpdateError, db)
      | Some i \<Rightarrow>
          (case update_first (\<lambda>n. note_id n = i \<and> userId n = u) (\<lambda>n. n\<lparr>isDeleted := False\<rparr>) db of
             (None, db') \<Rightarrow> (Inl NotFound, db')
           | (Some updatedNote, db') \<Rightarrow> (Inr updatedNote, db')))"
proof -
  have "apply_set \<lparr>u_title = None, u_content = None, u_courseTag = None, u_isPinned = None,
          u_isArchived = None, u_isDeleted = Some False\<rparr> = (\<lambda>n. n\<lparr>isDeleted := False\<rparr>)"
    by (rule ext) (simp add: apply_set_def)
  then show ?thesis by (simp add: put_note_fields restore_def split: option.split)
qed

lemma get_notes_filter:
  "get_notes db u view tag = sort_pinned_newest (filter (\<lambda>n. userId n = u \<and>
       (if view = Some (js ''deleted'') then isDeleted n
        else if view = Some (js ''archive'') then isArchived n \<and> \<not> isDeleted n
        else if string_truthy tag
          then courseTag n = map_option trim tag \<and> \<not> isArchived n \<and> \<not> isDeleted n
        else \<not> isArchived n \<and> \<not> isDeleted n)) db)"
proof (cases tag)
  case None
  then show ?thesis
    by (simp add: get_notes_def find_docs_def Let_def matches_def [abs_def] cast_filter_def)
next
  case (Some g)
  then show ?thesis
    by (simp add: get_notes_def find_docs_def Let_def matches_def [abs_def] cast_filter_def)
qed

lemma pinned_newest_first_key:
  "pinned_newest_first a b \<longleftrightarrow> (\<not> isPinned a, - createdAt a) \<le> (\<not> isPinned b, - createdAt b)"
  by (auto simp: pinned_newest_first_def less_eq_prod_def)

lemma sorted_sort_pinned_newest: "sorted_wrt pinned_newest_first (sort_pinned_newest ns)"
proof -
  have "sorted (map (\<lambda>n. (\<not> isPinned n, - createdAt n)) (sort_pinned_newest ns))"
    unfolding sort_pinned_newest_def by (rule sorted_sort_key)
  then show ?thesis
    by (simp add: sorted_map pinned_newest_first_key [abs_def])
qed

lemma mset_sort_pinned_newest: "mset (sort_pinned_newest ns) = mset ns"
  by (simp add: sort_pinned_newest_def)

lemma list_find_nth:
  "List.find P ns = Some n \<Longrightarrow> n \<in> set ns \<and> P n"
  by (induction ns) (auto split: if_splits)

text \<open>
  Claim C3, amended. For every user and every query, the list handler returns exactly the
  user's notes that its filter selects, each as often as it is stored: with \<open>view=deleted\<close>
  the notes with \<open>isDeleted\<close> set, whatever \<open>isArchived\<close> is; with \<open>view=archive\<close> the
  archived notes that are not deleted; otherwise, with a non-empty \<open>courseTag\<close> parameter, the
  notes that are neither archived nor deleted and whose tag is the parameter with the white
  space at its ends trimmed (all the white space that \<open>String.prototype.trim\<close> strips, the
  no-break space included); otherwise, and so also when the \<open>courseTag\<close> parameter is there
  but empty, all notes that are neither archived nor deleted. The returned list has pinned
  notes before unpinned ones and, within each group, newer notes before older ones.
\<close>

theorem note_list_selection_and_order:
  "mset (get_notes db u view tag) =
     filter_mset (\<lambda>n. userId n = u \<and>
       (if view = Some (js ''deleted'') then isDeleted n
        else if view = Some (js ''archive'') then isArchived n \<and> \<not> isDeleted n
        else if string_truthy tag
          then courseTag n = map_option trim tag \<and> \<not> isArchived n \<and> \<not> isDeleted n
        else \<not> isArchived n \<and> \<not> isDeleted n)) (mset db)
   \<and> sorted_wrt pinned_newest_first (get_notes db u view tag)"
proof
  show "mset (get_notes db u view tag) =
     filter_mset (\<lambda>n. userId n = u \<and>
       (if view = Some (js ''deleted'') then isDeleted n
        else if view = Some (js ''archive'') then isArchived n \<and> \<not> isDeleted n
        else if string_truthy tag
          then courseTag n = map_option trim tag \<and> \<not> isArchived n \<and> \<not> isDeleted n
        else \<not> isArchived n \<and> \<not> isDeleted n)) (mset db)"
    unfolding get_notes_filter mset_sort_pinned_newest by simp
  show "sorted_wrt pinned_newest_first (get_notes db u view tag)"
    unfolding get_notes_filter by (rule sorted_sort_pinned_newest)
qed

theorem note_list_selection_and_order_witness:
  "mset (get_notes [limits_note, bobs_note, pinned_note] (js ''alice'') None None)
     = {#limits_note, pinned_note#}
   \<and> sorted_wrt pinned_newest_first
       (get_notes [limits_note, bobs_note, pinned_note] (js ''alice'') None None)
   \<and> mset (get_notes [limits_note, bobs_note, pinned_note] (js ''alice'') None (Some (js ''Math'')))
     = {#limits_note#}
   \<and> mset (get_notes [limits_note, bobs_note, pinned_note] (js ''alice'') None
       (Some (nbsp # js ''Math''))) = {#limits_note#}
   \<and> mset (get_notes [limits_note, bobs_note, pinned_note] (js ''alice'') (Some (js ''deleted''))
       None) = {#}"
proof -
  have u: "userId limits_note = js ''alice''" "userId bobs_note \<noteq> js ''alice''"
      "userId pinned_note = js ''alice''"
    and a: "\<not> isArchived limits_note" "\<not> isArchived pinned_note"
    and d: "\<not> isDeleted limits_note" "\<not> isDeleted pinned_note"
    and t: "courseTag limits_note = Some (js ''Math'')" "courseTag pinned_note \<noteq> Some (js ''Math'')"
    by (simp_all add: limits_note_def bobs_note_def pinned_note_def)
  show ?thesis
    using note_list_selection_and_order [of "[limits_note, bobs_note, pinned_note]" "js ''alice''"
        None None]
      note_list_selection_and_order [of "[limits_note, bobs_note, pinned_note]" "js ''alice''"
        None "Some (js ''Math'')"]
      note_list_selection_and_order [of "[limits_note, bobs_note, pinned_note]" "js ''alice''"
        None "Some (nbsp # js ''Math'')"]
      note_list_selection_and_order [of "[limits_note, bobs_note, pinned_note]" "js ''alice''"
        "Some (js ''deleted'')" None]
    by (simp add: u a d t trim_Math trim_nbsp_Math)
qed

text \<open>
  Claim C3 as worded fails in two ways. For an empty \<open>courseTag\<close> parameter (\<open>?courseTag=\<close>)
  the parameter is given and the rule for a given tag selects the notes tagged with the empty
  text, yet the handler takes the empty string for no tag and returns the note tagged
  \<open>Math\<close>. For a parameter with white space at an end (\<open>?courseTag=%C2%A0Math\<close>, a no-break
  space before \<open>Math\<close>) no note has a tag equal to the parameter, yet the handler compares
  with the trimmed parameter and returns the note tagged \<open>Math\<close>.
\<close>

theorem courseTag_parameter_counterexample:
  "get_notes [limits_note] (js ''alice'') None (Some []) = [limits_note]
   \<and> \<not> spec_selects (js ''alice'') None (Some []) limits_note
   \<and> get_notes [limits_note] (js ''alice'') None (Some (nbsp # js ''Math'')) = [limits_note]
   \<and> \<not> spec_selects (js ''alice'') None (Some (nbsp # js ''Math'')) limits_note"
proof -
  have "nbsp # js ''Math'' \<noteq> js ''Math''" by (simp add: js_def)
  then show ?thesis
    by (simp add: get_notes_filter sort_pinned_newest_def spec_selects_def limits_note_def
        trim_nbsp_Math)
qed

text \<open>
  Claim C4, amended. For every owned note, in any state, a soft delete followed by a restore
  (an update with \<open>isDeleted=false\<close>) both succeed and leave the note with \<open>isDeleted\<close>
  false and every other field, \<open>isArchived\<close> included, as it was; all other notes are
  untouched. The note is then in the default view exactly when it was not archived before, in
  the archive view exactly when it was archived, and never in the deleted view. The owned
  note \<open>n\<close> is the stored note that has the id \<open>s\<close> of the two requests and the requester
  as owner.
\<close>

theorem softDelete_then_restore:
  assumes "List.find (\<lambda>m. castObjectId s = Some (note_id m) \<and> userId m = u) db = Some n"
  shows "\<exists>k db1. k < length db \<and> db ! k = n
     \<and> delete_note db u s = (Inr (), db1)
     \<and> put_note db1 u s restore = (Inr (n\<lparr>isDeleted := False\<rparr>), db[k := n\<lparr>isDeleted := False\<rparr>])
     \<and> (n\<lparr>isDeleted := False\<rparr> \<in> set (get_notes (db[k := n\<lparr>isDeleted := False\<rparr>]) u None None)
          \<longleftrightarrow> \<not> isArchived n)
     \<and> (n\<lparr>isDeleted := False\<rparr>
          \<in> set (get_notes (db[k := n\<lparr>isDeleted := False\<rparr>]) u (Some (js ''archive'')) None)
          \<longleftrightarrow> isArchived n)
     \<and> n\<lparr>isDeleted := False\<rparr>
          \<notin> set (get_notes (db[k := n\<lparr>isDeleted := False\<rparr>]) u (Some (js ''deleted'')) None)"
proof -
  define i where "i = note_id n"
  let ?P = "\<lambda>m. note_id m = i \<and> userId m = u"
  let ?n' = "n\<lparr>isDeleted := False\<rparr>"
  from list_find_nth [OF assms] have cast: "castObjectId s = Some i" and "userId n = u"
    by (simp_all add: i_def)
  then have own: "note_id n = i" "userId n = u" by (simp_all add: i_def)
  from cast have eq: "(\<lambda>m. castObjectId s = Some (note_id m) \<and> userId m = u) = ?P" by auto
  have found: "List.find ?P db = Some n" using assms unfolding eq .
  from update_first_some [OF found, of "\<lambda>m. m\<lparr>isDeleted := True\<rparr>"]
  obtain k1 where del: "update_first ?P (\<lambda>m. m\<lparr>isDeleted := True\<rparr>) db
      = (Some (n\<lparr>isDeleted := True\<rparr>), db[k1 := n\<lparr>isDeleted := True\<rparr>])"
    by blast
  from update_first_some [OF found, of "\<lambda>m. m\<lparr>isDeleted := False\<rparr>"]
  obtain k where k: "k < length db" "db ! k = n"
    and both: "update_first ?P (\<lambda>m. m\<lparr>isDeleted := False\<rparr>) db = (Some ?n', db[k := ?n'])"
    by blast
  let ?db1 = "db[k1 := n\<lparr>isDeleted := True\<rparr>]"
  have d: "delete_note db u s = (Inr (), ?db1)"
    by (simp add: delete_note_fields cast del)
  have "update_first ?P (\<lambda>m. m\<lparr>isDeleted := False\<rparr>) (snd (update_first ?P (\<lambda>m. m\<lparr>isDeleted := True\<rparr>) db))
      = update_first ?P (\<lambda>m. m\<lparr>isDeleted := True\<rparr>\<lparr>isDeleted := False\<rparr>) db"
    by (rule update_first_twice) simp
  then have "update_first ?P (\<lambda>m. m\<lparr>isDeleted := False\<rparr>) ?db1 = (Some ?n', db[k := ?n'])"
    by (simp add: del both)
  then have p: "put_note ?db1 u s restore = (Inr ?n', db[k := ?n'])"
    by (simp add: put_restore_fields cast)
  have mem: "?n' \<in> set (db[k := ?n'])" using k(1) by (simp add: set_update_memI)
  have v1: "?n' \<in> set (get_notes (db[k := ?n']) u None None) \<longleftrightarrow> \<not> isArchived n"
    using mem own by (simp add: get_notes_filter sort_pinned_newest_def)
  have v2: "?n' \<in> set (get_notes (db[k := ?n']) u (Some (js ''archive'')) None) \<longleftrightarrow> isArchived n"
    using mem own by (simp add: get_notes_filter sort_pinned_newest_def)
  have v3: "?n' \<notin> set (get_notes (db[k := ?n']) u (Some (js ''deleted'')) None)"
    by (simp add: get_notes_filter sort_pinned_newest_def)
  from k d p v1 v2 v3 show ?thesis by blast
qed

theorem softDelete_then_restore_witness:
  "\<exists>db1. delete_note [bobs_note, limits_note] (js ''alice'') id_1 = (Inr (), db1)
     \<and> put_note db1 (js ''alice'') id_1 restore = (Inr limits_note, [bobs_note, limits_note])
     \<and> limits_note \<in> set (get_notes [bobs_note, limits_note] (js ''alice'') None None)"
proof -
  have f: "List.find (\<lambda>m. castObjectId id_1 = Some (note_id m) \<and> userId m = js ''alice'')
      [bobs_note, limits_note] = Some limits_note"
    by (simp add: castObjectId_id_1 bobs_note_def limits_note_def)
  have e: "limits_note\<lparr>isDeleted := False\<rparr> = limits_note" by (simp add: limits_note_def)
  from softDelete_then_restore [OF f] obtain k db1 where
    k: "k < length [bobs_note, limits_note]" "[bobs_note, limits_note] ! k = limits_note"
    and r: "delete_note [bobs_note, limits_note] (js ''alice'') id_1 = (Inr (), db1)"
      "put_note db1 (js ''alice'') id_1 restore
         = (Inr limits_note, [bobs_note, limits_note][k := limits_note])"
      "limits_note \<in> set (get_notes ([bobs_note, limits_note][k := limits_note]) (js ''alice'') None None)
         \<longleftrightarrow> \<not> isArchived limits_note"
    unfolding e by blast
  from k have "[bobs_note, limits_note][k := limits_note] = [bobs_note, limits_note]"
    by (metis list_update_id)
  with r show ?thesis by (auto simp: limits_note_def)
qed

text \<open>
  Claim C4 as worded fails for an archived note: after soft delete and restore it is still
  archived, so the default view does not show it and the archive view does.
\<close>

theorem archived_note_counterexample:
  "get_notes (snd (put_note (snd (delete_note [limits_note\<lparr>isArchived := True\<rparr>] (js ''alice'') id_1))
      (js ''alice'') id_1 restore)) (js ''alice'') None None = []
   \<and> get_notes (snd (put_note (snd (delete_note [limits_note\<lparr>isArchived := True\<rparr>] (js ''alice'') id_1))
      (js ''alice'') id_1 restore)) (js ''alice'') (Some (js ''archive'')) None
     = [limits_note\<lparr>isArchived := True\<rparr>]"
  by (simp add: delete_note_fields put_restore_fields castObjectId_id_1 get_notes_filter
      sort_pinned_newest_def limits_note_def)

text \<open>
  Claim C5. For every owned note (\<open>n\<close>, the stored note with the given id and owner) and
  every update payload, the update succeeds, returns the updated note and stores it in the
  place of \<open>n\<close>, all other notes unchanged. Each of \<open>title\<close>, \<open>content\<close>, \<open>courseTag\<close>,
  \<open>isPinned\<close>, \<open>isArchived\<close>, \<open>isDeleted\<close> that the payload leaves out is as it was in
  \<open>n\<close>; each one the payload holds has the payload's value (the tag trimmed as
  \<open>String.prototype.trim\<close> does, which is what the schema asks for); owner, id and
  \<open>createdAt\<close> are unchanged. The owned note \<open>n\<close> is the stored note that has the id \<open>s\<close> of
  the request and the requester as owner.
\<close>

theorem update_changes_only_supplied_fields:
  assumes "List.find (\<lambda>m. castObjectId s = Some (note_id m) \<and> userId m = u) db = Some n"
  shows "\<exists>n' k. put_note db u s body = (Inr n', db[k := n']) \<and> k < length db \<and> db ! k = n
     \<and> title n' = (case b_title body of None \<Rightarrow> title n | Some v \<Rightarrow> v)
     \<and> content n' = (case b_content body of None \<Rightarrow> content n | Some v \<Rightarrow> v)
     \<and> courseTag n' = (case b_courseTag body of None \<Rightarrow> courseTag n | Some v \<Rightarrow> Some (trim v))
     \<and> isPinned n' = (case b_isPinned body of None \<Rightarrow> isPinned n | Some v \<Rightarrow> v)
     \<and> isArchived n' = (case b_isArchived body of None \<Rightarrow> isArchived n | Some v \<Rightarrow> v)
     \<and> isDeleted n' = (case b_isDeleted body of None \<Rightarrow> isDeleted n | Some v \<Rightarrow> v)
     \<and> userId n' = userId n \<and> note_id n' = note_id n \<and> createdAt n' = createdAt n"
proof -
  let ?g = "apply_set \<lparr>u_title = b_title body, u_content = b_content body,
           u_courseTag = b_courseTag body, u_isPinned = b_isPinned body,
           u_isArchived = b_isArchived body, u_isDeleted = b_isDeleted body\<rparr>"
  define i where "i = note_id n"
  from list_find_nth [OF assms] have cast: "castObjectId s = Some i" by (simp add: i_def)
  then have eq: "(\<lambda>m. castObjectId s = Some (note_id m) \<and> userId m = u)
      = (\<lambda>m. note_id m = i \<and> userId m = u)" by auto
  have found: "List.find (\<lambda>m. note_id m = i \<and> userId m = u) db = Some n"
    using assms unfolding eq .
  from update_first_some [OF found, of ?g]
  obtain k where k: "k < length db" "db ! k = n"
    "update_first (\<lambda>m. note_id m = i \<and> userId m = u) ?g db = (Some (?g n), db[k := ?g n])"
    by blast
  have "put_note db u s body = (Inr (?g n), db[k := ?g n])"
    by (simp add: put_note_fields cast k(3))
  with k(1,2) show ?thesis
    by (intro exI [of _ "?g n"] exI [of _ k]) (simp add: apply_set_def)
qed

theorem update_changes_only_supplied_fields_witness:
  "\<exists>n'. fst (put_note [bobs_note, limits_note] (js ''alice'') id_1
        \<lparr>b_title = None, b_content = None, b_courseTag = Some (nbsp # js '' Art '' @ [nbsp]),
         b_isPinned = Some True, b_isArchived = None, b_isDeleted = None\<rparr>) = Inr n'
      \<and> title n' = js ''Limits'' \<and> courseTag n' = Some (js ''Art'') \<and> isPinned n'
      \<and> \<not> isArchived n' \<and> userId n' = js ''alice'' \<and> createdAt n' = 1000"
proof -
  have f: "List.find (\<lambda>m. castObjectId id_1 = Some (note_id m) \<and> userId m = js ''alice'')
      [bobs_note, limits_note] = Some limits_note"
    by (simp add: castObjectId_id_1 bobs_note_def limits_note_def)
  have t: "trim (nbsp # js '' Art '' @ [nbsp]) = js ''Art''"
    by (simp add: trim_def js_def is_whitespace_def nbsp_def)
  from update_changes_only_supplied_fields [OF f, of "\<lparr>b_title = None,
      b_content = None, b_courseTag = Some (nbsp # js '' Art '' @ [nbsp]), b_isPinned = Some True,
      b_isArchived = None, b_isDeleted = None\<rparr>"]
  show ?thesis by (auto simp: t limits_note_def)
qed

text \<open>
  Claim C6, amended. When no stored note has both the id of the request and the requester as
  owner, update and permanent delete leave the collection as it was, and their answer
  depends on the id alone. For an id that is an object id (24 hexadecimal digits) both
  answer \<open>NotFound\<close>: the hypothesis covers an id that is not stored and an id stored under
  another owner alike, and the answer is the same value in both cases. For any other id the
  query throws before it reaches the collection: update answers with its \<open>Update error\<close>
  (status 400) and permanent delete with its \<open>Permanent deletion error\<close> (status 500).
\<close>

theorem not_owned_is_NotFound_or_cast_error:
  assumes "\<not> (\<exists>n \<in> set db. castObjectId s = Some (note_id n) \<and> userId n = u)"
  shows "(castObjectId s \<noteq> None \<longrightarrow>
            put_note db u s body = (Inl NotFound, db)
          \<and> delete_note_permanent db u s = (Inl NotFound, db))
       \<and> (castObjectId s = None \<longrightarrow>
            put_note db u s body = (Inl UpdateError, db)
          \<and> delete_note_permanent db u s = (Inl PermanentDeletionError, db))"
proof (cases "castObjectId s")
  case None
  then show ?thesis
    by (simp add: put_note_fields delete_note_permanent_fields)
next
  case (Some i)
  with assms have none: "\<forall>n \<in> set db. \<not> (note_id n = i \<and> userId n = u)" by auto
  from Some show ?thesis
    by (simp add: put_note_fields delete_note_permanent_fields
        update_first_none [OF none] remove_first_none [OF none])
qed

theorem not_owned_is_NotFound_or_cast_error_witness:
  "put_note [bobs_note] (js ''alice'') id_3 restore = (Inl NotFound, [bobs_note])
   \<and> delete_note_permanent [bobs_note] (js ''alice'') id_3 = (Inl NotFound, [bobs_note])
   \<and> put_note [bobs_note] (js ''alice'') id_9 restore = (Inl NotFound, [bobs_note])
   \<and> delete_note_permanent [bobs_note] (js ''alice'') id_9 = (Inl NotFound, [bobs_note])
   \<and> put_note [bobs_note] (js ''alice'') (js ''123'') restore = (Inl UpdateError, [bobs_note])
   \<and> delete_note_permanent [bobs_note] (js ''alice'') (js ''123'')
       = (Inl PermanentDeletionError, [bobs_note])"
proof -
  have a: "\<not> (\<exists>n \<in> set [bobs_note]. castObjectId id_3 = Some (note_id n) \<and> userId n = js ''alice'')"
    and b: "\<not> (\<exists>n \<in> set [bobs_note]. castObjectId id_9 = Some (note_id n) \<and> userId n = js ''alice'')"
    and c: "\<not> (\<exists>n \<in> set [bobs_note]. castObjectId (js ''123'') = Some (note_id n)
              \<and> userId n = js ''alice'')"
    by (simp_all add: bobs_note_def castObjectId_id_9 castObjectId_123)
  from not_owned_is_NotFound_or_cast_error [OF a, of restore]
    not_owned_is_NotFound_or_cast_error [OF b, of restore]
    not_owned_is_NotFound_or_cast_error [OF c, of restore]
  show ?thesis by (simp add: castObjectId_id_3 castObjectId_id_9 castObjectId_123)
qed

text \<open>
  Claim C6 as worded fails for an id that is not an object id. For \<open>PUT /api/notes/123\<close> and
  \<open>DELETE /api/notes/123/permanent\<close> no note with that id exists, owned by the requester or by
  anyone, yet the answers are the errors of the two \<open>catch\<close> branches, not \<open>NotFound\<close>.
\<close>

theorem malformed_id_counterexample:
  "castObjectId (js ''123'') = None
   \<and> put_note [bobs_note] (js ''alice'') (js ''123'') restore = (Inl UpdateError, [bobs_note])
   \<and> fst (put_note [bobs_note] (js ''alice'') (js ''123'') restore) \<noteq> Inl NotFound
   \<and> delete_note_permanent [bobs_note] (js ''alice'') (js ''123'')
       = (Inl PermanentDeletionError, [bobs_note])
   \<and> fst (delete_note_permanent [bobs_note] (js ''alice'') (js ''123'')) \<noteq> Inl NotFound"
  by (simp add: put_note_fields delete_note_permanent_fields castObjectId_123)




text \<open>
  Claim C9. For every user, the tag handler returns exactly the non-empty tags of that user's
  notes that are neither archived nor deleted, each tag once. So a tag that only archived or
  deleted notes carry, an empty or missing tag, and a tag of another user's note are not
  returned.
\<close>

theorem distinct_tags_of_active_notes:
  "set (get_tags db u) =
     {Some t | t. t \<noteq> [] \<and>
        (\<exists>n \<in> set db. userId n = u \<and> \<not> isArchived n \<and> \<not> isDeleted n \<and> courseTag n = Some t)}
   \<and> distinct (get_tags db u)"
proof -
  have m: "matches (cast_filter \<lparr>f_id = None, f_userId = Some u, f_courseTag = None,
       f_isArchived = Some False, f_isDeleted = Some False\<rparr>) =
     (\<lambda>n. userId n = u \<and> \<not> isArchived n \<and> \<not> isDeleted n)"
    by (rule ext) (simp add: matches_def cast_filter_def)
  have t: "string_truthy x \<longleftrightarrow> (\<exists>t. x = Some t \<and> t \<noteq> [])" for x
    by (cases x) auto
  have "set (get_tags db u) =
     {x \<in> courseTag ` {n \<in> set db. userId n = u \<and> \<not> isArchived n \<and> \<not> isDeleted n}. string_truthy x}"
    by (simp add: get_tags_def distinct_courseTag_def find_docs_def m)
  also have "\<dots> = {Some t | t. t \<noteq> [] \<and>
        (\<exists>n \<in> set db. userId n = u \<and> \<not> isArchived n \<and> \<not> isDeleted n \<and> courseTag n = Some t)}"
    unfolding t by (rule set_eqI) (simp add: image_iff, metis)
  finally show ?thesis
    by (simp add: get_tags_def distinct_courseTag_def)
qed

theorem distinct_tags_of_active_notes_witness:
  "Some (js ''Math'') \<in> set (get_tags [limits_note, limits_note\<lparr>note_id := 4\<rparr>, bobs_note,
        pinned_note\<lparr>isArchived := True\<rparr>, limits_note\<lparr>courseTag := Some []\<rparr>] (js ''alice''))
   \<and> Some (js ''General'') \<notin> set (get_tags [limits_note, limits_note\<lparr>note_id := 4\<rparr>, bobs_note,
        pinned_note\<lparr>isArchived := True\<rparr>, limits_note\<lparr>courseTag := Some []\<rparr>] (js ''alice''))
   \<and> Some (js ''History'') \<notin> set (get_tags [limits_note, limits_note\<lparr>note_id := 4\<rparr>, bobs_note,
        pinned_note\<lparr>isArchived := True\<rparr>, limits_note\<lparr>courseTag := Some []\<rparr>] (js ''alice''))
   \<and> Some [] \<notin> set (get_tags [limits_note, limits_note\<lparr>note_id := 4\<rparr>, bobs_note,
        pinned_note\<lparr>isArchived := True\<rparr>, limits_note\<lparr>courseTag := Some []\<rparr>] (js ''alice''))
   \<and> distinct (get_tags [limits_note, limits_note\<lparr>note_id := 4\<rparr>, bobs_note,
        pinned_note\<lparr>isArchived := True\<rparr>, limits_note\<lparr>courseTag := Some []\<rparr>] (js ''alice''))"
  using distinct_tags_of_active_notes [of "[limits_note, limits_note\<lparr>note_id := 4\<rparr>, bobs_note,
        pinned_note\<lparr>isArchived := True\<rparr>, limits_note\<lparr>courseTag := Some []\<rparr>]" "js ''alice''"]
  by (simp add: limits_note_def bobs_note_def pinned_note_def)

section \<open>Cumulative GPA: properties\<close>

lemma foldl_reduce_step:
  "foldl reduce_step a rs =
     \<lparr>totalGPA = foldl js_add (totalGPA a) (map (\<lambda>r. js_mul (gpa r) (creditHours r)) rs),
      totalCredit = foldl js_add (totalCredit a) (map creditHours rs)\<rparr>"
  by (induction rs arbitrary: a) (simp_all add: reduce_step_def)

lemma cumulative_gpa_sums:
  "records \<noteq> [] \<Longrightarrow> cumulative_gpa records =
     \<lparr>res_gpa = String (toFixed2
         (if truthy (js_sum (map creditHours records))
          then js_div (js_sum (map (\<lambda>r. js_mul (gpa r) (creditHours r)) records))
                 (js_sum (map creditHours records))
          else Finite 0)),
      res_creditTotal = Number (js_sum (map creditHours records))\<rparr>"
  by (simp add: cumulative_gpa_def foldl_reduce_step finalGPA_def js_sum_def Let_def)

lemma digits_small: "n < 10 \<Longrightarrow> digits n = [''0123456789'' ! n]"
  by (simp add: digits.simps)

lemma digits_large: "10 \<le> n \<Longrightarrow> digits n = digits (n div 10) @ [''0123456789'' ! (n mod 10)]"
  by (subst digits.simps) simp

lemma digits_nonempty [simp]: "digits n \<noteq> []"
  by (subst digits.simps) simp

lemma toFixed2_hundredths:
  assumes "\<bar>q\<bar> < 10 ^ 21"
  shows "toFixed2 (Finite q) =
    (let n = nat \<lfloor>\<bar>q\<bar> * 100 + 1 / 2\<rfloor>
     in Text ((if q < 0 then ''-'' else '''') @ digits (n div 100) @ ''.'' @
          [''0123456789'' ! (n div 10 mod 10), ''0123456789'' ! (n mod 10)]))"
proof -
  define n where "n = nat \<lfloor>\<bar>q\<bar> * 100 + 1 / 2\<rfloor>"
  consider "n < 10" | "10 \<le> n" "n < 100" | "100 \<le> n" by linarith
  then have "(let m = digits n;
                 m = (if length m \<le> 2 then replicate (3 - length m) CHR ''0'' @ m else m);
                 k = length m
             in take (k - 2) m @ ''.'' @ drop (k - 2) m) =
         digits (n div 100) @ ''.'' @ [''0123456789'' ! (n div 10 mod 10), ''0123456789'' ! (n mod 10)]"
  proof cases
    case 1
    then show ?thesis by (simp add: digits_small numeral_3_eq_3)
  next
    case 2
    then have "n div 10 < 10" by simp
    with 2 show ?thesis by (simp add: digits_large digits_small)
  next
    case 3
    then have a: "10 \<le> n" and b: "10 \<le> n div 10" by simp_all
    have e: "n div 10 div 10 = n div 100" by arith
    have d: "digits n = digits (n div 100) @
        [''0123456789'' ! (n div 10 mod 10), ''0123456789'' ! (n mod 10)]"
      by (simp add: digits_large [OF a] digits_large [OF b] e)
    show ?thesis by (simp add: d Let_def)
  qed
  then show ?thesis
    using assms by (simp add: toFixed2_def Let_def n_def)
qed

lemma toFixed2_0: "toFixed2 (Finite 0) = Text ''0.00''"
  by (simp add: toFixed2_hundredths digits_small)


lemma post_grade_credit_record:
  "h \<noteq> NaN \<Longrightarrow> post_grade db ''alice'' i 1000 (Some ''Math'') (Some (Finite 90)) (Some h)
     = (Inr (credit_record i h), db @ [credit_record i h])"
  by (simp add: post_grade_def credit_record_def getGrade_def getGPA_def Let_def)

lemma floor_half [simp]: "\<lfloor>(1::rat) / 2\<rfloor> = 0"
  by (rule floor_unique) simp_all

lemma round_double_samples:
  "round_double 12 = Finite 12" "round_double 3 = Finite 3" "round_double 4 = Finite 4"
  "round_double (5 / 2) = Finite (5 / 2)" "round_double (29 / 2) = Finite (29 / 2)"
  "round_double (29 / 8) = Finite (29 / 8)" "round_double (- 4) = Finite (- 4)"
  "round_double (- 1) = Finite (- 1)" "round_double 2 = Finite 2"
  using round_double_quarters [of 10] round_double_quarters [of 58]
    round_double_exact [of "29 / 8" 29 "- 3"] round_double_int [of "- 1"]
  by (simp_all add: round_double_numeral)

lemma tenths_values:
  "tenths 1 = Finite (3602879701896397 / 36028797018963968)"
  "tenths 2 = Finite (3602879701896397 / 18014398509481984)"
  "tenths 3 = Finite (5404319552844595 / 18014398509481984)"
proof -
  show "tenths 1 = Finite (3602879701896397 / 36028797018963968)"
    unfolding tenths_def
    by (subst round_double_normal [where k = "- 4"])
      (simp_all add: round_half_even_def power_int_minus Let_def)
  show "tenths 2 = Finite (3602879701896397 / 18014398509481984)"
    unfolding tenths_def
    by (subst round_double_normal [where k = "- 3"])
      (simp_all add: round_half_even_def power_int_minus Let_def)
  show "tenths 3 = Finite (5404319552844595 / 18014398509481984)"
    unfolding tenths_def
    by (subst round_double_normal [where k = "- 2"])
      (simp_all add: round_half_even_def power_int_minus Let_def)
qed

lemma tenths_sum_123:
  "js_add (Finite 0) (Finite (3602879701896397 / 36028797018963968))
     = Finite (3602879701896397 / 36028797018963968)"
  "js_add (Finite (3602879701896397 / 36028797018963968)) (Finite (3602879701896397 / 18014398509481984))
     = Finite (1351079888211149 / 4503599627370496)"
  "js_add (Finite (1351079888211149 / 4503599627370496)) (Finite (5404319552844595 / 18014398509481984))
     = Finite (1351079888211149 / 2251799813685248)"
proof -
  show "js_add (Finite 0) (Finite (3602879701896397 / 36028797018963968))
     = Finite (3602879701896397 / 36028797018963968)"
    using round_double_exact [of "3602879701896397 / 36028797018963968" 3602879701896397 "- 55"]
    by (simp add: power_int_minus)
  show "js_add (Finite (3602879701896397 / 36028797018963968)) (Finite (3602879701896397 / 18014398509481984))
     = Finite (1351079888211149 / 4503599627370496)"
    unfolding js_add.simps
    by (subst round_double_normal [where k = "- 2"])
      (simp_all add: round_half_even_def power_int_minus Let_def)
  show "js_add (Finite (1351079888211149 / 4503599627370496)) (Finite (5404319552844595 / 18014398509481984))
     = Finite (1351079888211149 / 2251799813685248)"
    unfolding js_add.simps
    by (subst round_double_normal [where k = "- 1"])
      (simp_all add: round_half_even_def power_int_minus Let_def)
qed

lemma tenths_sum_321:
  "js_add (Finite 0) (Finite (5404319552844595 / 18014398509481984))
     = Finite (5404319552844595 / 18014398509481984)"
  "js_add (Finite (5404319552844595 / 18014398509481984)) (Finite (3602879701896397 / 18014398509481984))
     = Finite (1 / 2)"
  "js_add (Finite (1 / 2)) (Finite (3602879701896397 / 36028797018963968))
     = Finite (5404319552844595 / 9007199254740992)"
proof -
  show "js_add (Finite 0) (Finite (5404319552844595 / 18014398509481984))
     = Finite (5404319552844595 / 18014398509481984)"
    using round_double_exact [of "5404319552844595 / 18014398509481984" 5404319552844595 "- 54"]
    by (simp add: power_int_minus)
  show "js_add (Finite (5404319552844595 / 18014398509481984)) (Finite (3602879701896397 / 18014398509481984))
     = Finite (1 / 2)"
    using round_double_exact [of "1 / 2" 1 "- 1"]
    by (simp add: power_int_minus)
  show "js_add (Finite (1 / 2)) (Finite (3602879701896397 / 36028797018963968))
     = Finite (5404319552844595 / 9007199254740992)"
    unfolding js_add.simps
    by (subst round_double_normal [where k = "- 1"])
      (simp_all add: round_half_even_def power_int_minus Let_def)
qed

lemma creditTotal_sum:
  "records \<noteq> [] \<Longrightarrow> res_creditTotal (cumulative_gpa records) = Number (js_sum (map creditHours records))"
  by (simp add: cumulative_gpa_sums)

lemma getGPA_quarters: "\<exists>g::nat. g \<le> 16 \<and> getGPA s = Finite (of_nat g / 4)"
proof -
  have "getGPA s \<in> (\<lambda>g. Finite (of_nat g / 4)) ` {16, 15, 14, 12, 10, 8, 0::nat}"
    by (simp add: getGPA_def)
  then obtain g :: nat where "g \<in> {16, 15, 14, 12, 10, 8, 0}" "getGPA s = Finite (of_nat g / 4)"
    by blast
  then show ?thesis by (intro exI [of _ g]) auto
qed

lemma add_exact:
  assumes "a + b < 2 ^ 53" "- 1074 \<le> j" "j \<le> 971"
  shows "js_add (Finite (of_nat a * 2 powi j)) (Finite (of_nat b * 2 powi j))
    = Finite (of_nat (a + b) * 2 powi j)"
proof -
  have "\<bar>int (a + b)\<bar> < 2 ^ 53" using assms(1) by (simp flip: of_nat_less_iff [where ?'a = int])
  from round_double_exact [OF refl this assms(2,3)]
  show ?thesis by (simp add: distrib_right)
qed

lemma mul_exact:
  assumes "a * b < 2 ^ 53"
  shows "js_mul (Finite (of_nat a * 2 powi (- 2))) (Finite (of_nat b * 2 powi (- 2)))
    = Finite (of_nat (a * b) * 2 powi (- 4))"
proof -
  have "\<bar>int (a * b)\<bar> < 2 ^ 53" using assms(1) by (simp flip: of_nat_less_iff [where ?'a = int])
  from round_double_exact [OF refl this, of "- 4"]
  show ?thesis by (simp add: power_int_minus)
qed

lemma sum_list_bounded:
  "\<forall>r \<in> set rs. h r \<le> (B::nat) \<Longrightarrow> sum_list (map h rs) \<le> B * length rs"
  by (induction rs) auto

lemma exact_fold:
  assumes "\<forall>r \<in> set rs. creditHours r = Finite (of_nat (h r) * 2 powi (- 2))
      \<and> gpa r = Finite (of_nat (g r) * 2 powi (- 2)) \<and> g r \<le> 16"
    and "w \<le> 16 * t" and "t + sum_list (map h rs) < 2 ^ 49"
  shows "foldl reduce_step \<lparr>totalGPA = Finite (of_nat w * 2 powi (- 4)),
        totalCredit = Finite (of_nat t * 2 powi (- 2))\<rparr> rs
    = \<lparr>totalGPA = Finite (of_nat (w + sum_list (map (\<lambda>r. g r * h r) rs)) * 2 powi (- 4)),
       totalCredit = Finite (of_nat (t + sum_list (map h rs)) * 2 powi (- 2))\<rparr>"
  using assms
proof (induction rs arbitrary: w t)
  case Nil
  then show ?case by simp
next
  case (Cons r rs)
  from Cons.prems(1) have r: "creditHours r = Finite (of_nat (h r) * 2 powi (- 2))"
    "gpa r = Finite (of_nat (g r) * 2 powi (- 2))" "g r \<le> 16"
    and rest: "\<forall>r \<in> set rs. creditHours r = Finite (of_nat (h r) * 2 powi (- 2))
      \<and> gpa r = Finite (of_nat (g r) * 2 powi (- 2)) \<and> g r \<le> 16"
    by simp_all
  from Cons.prems(3) have th: "t + h r < 2 ^ 49" and tr: "(t + h r) + sum_list (map h rs) < 2 ^ 49"
    by simp_all
  have gh: "g r * h r \<le> 16 * h r" using r(3) by simp
  have "w + g r * h r \<le> 16 * t + 16 * h r" using Cons.prems(2) gh by (rule add_mono)
  then have w': "w + g r * h r \<le> 16 * (t + h r)" by (simp only: distrib_left)
  have "16 * (t + h r) < 16 * 2 ^ 49" using th by simp
  also have "\<dots> = (2::nat) ^ 53" by simp
  finally have b: "16 * (t + h r) < 2 ^ 53" .
  have s: "w + g r * h r < 2 ^ 53" using w' b by (rule le_less_trans)
  have p: "g r * h r < 2 ^ 53" using le_add2 s by (rule le_less_trans)
  have c: "t + h r < 2 ^ 53" using th by simp
  have step: "reduce_step \<lparr>totalGPA = Finite (of_nat w * 2 powi (- 4)),
        totalCredit = Finite (of_nat t * 2 powi (- 2))\<rparr> r
      = \<lparr>totalGPA = Finite (of_nat (w + g r * h r) * 2 powi (- 4)),
         totalCredit = Finite (of_nat (t + h r) * 2 powi (- 2))\<rparr>"
    unfolding reduce_step_def r
    by (simp only: acc.simps mul_exact [OF p] add_exact [OF s] add_exact [OF c])
  show ?case
    by (simp only: foldl_Cons step Cons.IH [OF rest w' tr] list.map sum_list.Cons add.assoc)
qed

lemma exact_totals:
  assumes "\<forall>r \<in> set rs. h r \<le> 4000 \<and> creditHours r = Finite (of_nat (h r) / 4)"
    and "\<forall>r \<in> set rs. g r \<le> 16 \<and> gpa r = Finite (of_nat (g r) / 4)"
    and "length rs \<le> 2 ^ 30"
  shows "foldl reduce_step \<lparr>totalGPA = Finite 0, totalCredit = Finite 0\<rparr> rs
    = \<lparr>totalGPA = Finite (of_nat (sum_list (map (\<lambda>r. g r * h r) rs)) * 2 powi (- 4)),
       totalCredit = Finite (of_nat (sum_list (map h rs)) * 2 powi (- 2))\<rparr>"
proof -
  have q: "of_nat x / 4 = (of_nat x :: rat) * 2 powi (- 2)" for x :: nat
    by (simp add: power_int_minus)
  have a: "\<forall>r \<in> set rs. creditHours r = Finite (of_nat (h r) * 2 powi (- 2))
      \<and> gpa r = Finite (of_nat (g r) * 2 powi (- 2)) \<and> g r \<le> 16"
  proof
    fix r
    assume "r \<in> set rs"
    with assms(1,2) have "creditHours r = Finite (of_nat (h r) / 4)"
      "gpa r = Finite (of_nat (g r) / 4)" "g r \<le> 16"
      by blast+
    then show "creditHours r = Finite (of_nat (h r) * 2 powi (- 2))
      \<and> gpa r = Finite (of_nat (g r) * 2 powi (- 2)) \<and> g r \<le> 16"
      by (simp only: q simp_thms)
  qed
  have "sum_list (map h rs) \<le> 4000 * length rs"
    using assms(1) by (intro sum_list_bounded) simp
  also have "\<dots> \<le> 4000 * 2 ^ 30" using assms(3) by (simp only: mult_le_mono2)
  also have "\<dots> < (2::nat) ^ 49" by simp
  finally have b: "0 + sum_list (map h rs) < 2 ^ 49" by simp
  have c: "(0::nat) \<le> 16 * 0" by simp
  from exact_fold [OF a c b] show ?thesis by (simp only: semiring_1_class.of_nat_0 mult_zero_left add_0)
qed




text \<open>
  Claim C7, amended. The cumulative GPA does not depend on the order of the records, in the
  GPA and in the credit total, whenever the arithmetic is exact: every record's credit hours
  are a multiple of 0.25 from 0 to 1000, every record's grade point is one that \<open>getGPA\<close>
  returns, and there are at most \<open>2 ^ 30\<close> records.
\<close>

theorem cumulative_gpa_permutation_exact:
  assumes "mset rs = mset rs'"
    and "\<forall>r \<in> set rs. (\<exists>c::nat. c \<le> 4000 \<and> creditHours r = Finite (of_nat c / 4))
          \<and> (\<exists>s. gpa r = getGPA s)"
    and "length rs \<le> 2 ^ 30"
  shows "cumulative_gpa rs = cumulative_gpa rs'"
proof -
  from assms(2) have "\<forall>r \<in> set rs. \<exists>c::nat. c \<le> 4000 \<and> creditHours r = Finite (of_nat c / 4)"
    by blast
  then obtain h :: "grade_record \<Rightarrow> nat"
    where h: "\<forall>r \<in> set rs. h r \<le> 4000 \<and> creditHours r = Finite (of_nat (h r) / 4)"
    by (rule bchoice [THEN exE])
  from assms(2) have "\<forall>r \<in> set rs. \<exists>g::nat. g \<le> 16 \<and> gpa r = Finite (of_nat g / 4)"
    using getGPA_quarters by metis
  then obtain g :: "grade_record \<Rightarrow> nat"
    where g: "\<forall>r \<in> set rs. g r \<le> 16 \<and> gpa r = Finite (of_nat (g r) / 4)"
    by (rule bchoice [THEN exE])
  have set: "set rs' = set rs" using assms(1) by (metis set_mset_mset)
  have len: "length rs' = length rs" using assms(1) by (metis size_mset)
  have sums: "sum_list (map f rs') = sum_list (map f rs)" for f :: "grade_record \<Rightarrow> nat"
    using assms(1) by (metis mset_map sum_mset_sum_list)
  have h': "\<forall>r \<in> set rs'. h r \<le> 4000 \<and> creditHours r = Finite (of_nat (h r) / 4)"
    using h by (simp only: set)
  have g': "\<forall>r \<in> set rs'. g r \<le> 16 \<and> gpa r = Finite (of_nat (g r) / 4)"
    using g by (simp only: set)
  have len': "length rs' \<le> 2 ^ 30" using assms(3) by (simp only: len)
  have "foldl reduce_step \<lparr>totalGPA = Finite 0, totalCredit = Finite 0\<rparr> rs'
      = foldl reduce_step \<lparr>totalGPA = Finite 0, totalCredit = Finite 0\<rparr> rs"
    by (simp only: exact_totals [OF h g assms(3)] exact_totals [OF h' g' len'] sums)
  then show ?thesis by (simp only: cumulative_gpa_def len)
qed

theorem cumulative_gpa_permutation_exact_witness:
  "cumulative_gpa [credit_record 1 (Finite 3), credit_record 2 (Finite (3 / 2)),
       (credit_record 3 (Finite 4))\<lparr>score := Finite 60, grade := ''C+'', gpa := Finite (5 / 2)\<rparr>]
   = cumulative_gpa [(credit_record 3 (Finite 4))\<lparr>score := Finite 60, grade := ''C+'', gpa := Finite (5 / 2)\<rparr>,
       credit_record 2 (Finite (3 / 2)), credit_record 1 (Finite 3)]"
proof (rule cumulative_gpa_permutation_exact)
  show "mset [credit_record 1 (Finite 3), credit_record 2 (Finite (3 / 2)),
       (credit_record 3 (Finite 4))\<lparr>score := Finite 60, grade := ''C+'', gpa := Finite (5 / 2)\<rparr>]
     = mset [(credit_record 3 (Finite 4))\<lparr>score := Finite 60, grade := ''C+'', gpa := Finite (5 / 2)\<rparr>,
       credit_record 2 (Finite (3 / 2)), credit_record 1 (Finite 3)]"
    by (simp add: add_mset_commute)
  have c: "Finite 3 = Finite (of_nat 12 / 4)" "Finite (3 / 2) = Finite (of_nat 6 / 4)"
    "Finite 4 = Finite (of_nat 16 / 4)"
    by simp_all
  have g: "Finite 4 = getGPA (Finite 90)" "Finite (5 / 2) = getGPA (Finite 60)"
    by (simp_all add: getGPA_def)
  show "\<forall>r \<in> set [credit_record 1 (Finite 3), credit_record 2 (Finite (3 / 2)),
       (credit_record 3 (Finite 4))\<lparr>score := Finite 60, grade := ''C+'', gpa := Finite (5 / 2)\<rparr>].
      (\<exists>c::nat. c \<le> 4000 \<and> creditHours r = Finite (of_nat c / 4)) \<and> (\<exists>s. gpa r = getGPA s)"
    unfolding credit_record_def
    by (auto intro: exI [of _ "12::nat"] exI [of _ "6::nat"] exI [of _ "16::nat"] g
        simp del: of_nat_numeral)
  show "length [credit_record 1 (Finite 3), credit_record 2 (Finite (3 / 2)),
       (credit_record 3 (Finite 4))\<lparr>score := Finite 60, grade := ''C+'', gpa := Finite (5 / 2)\<rparr>]
     \<le> 2 ^ 30"
    by simp
qed

text \<open>
  Claim C7 as worded fails in JavaScript's arithmetic, whose addition rounds: for records
  with credit hours 0.1, 0.2 and 0.3 the credit total is 0.6000000000000001, and for the same
  records in the reverse order it is 0.6.
\<close>

theorem reordered_tenths_counterexample:
  "res_creditTotal (cumulative_gpa
      [credit_record 1 (tenths 1), credit_record 2 (tenths 2), credit_record 3 (tenths 3)])
     = Number (Finite (1351079888211149 / 2251799813685248))
   \<and> res_creditTotal (cumulative_gpa
      [credit_record 3 (tenths 3), credit_record 2 (tenths 2), credit_record 1 (tenths 1)])
     = Number (Finite (5404319552844595 / 9007199254740992))
   \<and> cumulative_gpa
      [credit_record 1 (tenths 1), credit_record 2 (tenths 2), credit_record 3 (tenths 3)]
     \<noteq> cumulative_gpa
      [credit_record 3 (tenths 3), credit_record 2 (tenths 2), credit_record 1 (tenths 1)]"
proof -
  let ?a = "[credit_record 1 (tenths 1), credit_record 2 (tenths 2), credit_record 3 (tenths 3)]"
  let ?b = "[credit_record 3 (tenths 3), credit_record 2 (tenths 2), credit_record 1 (tenths 1)]"
  have a: "res_creditTotal (cumulative_gpa ?a) = Number (Finite (1351079888211149 / 2251799813685248))"
    by (simp add: creditTotal_sum js_sum_def credit_record_def tenths_values tenths_sum_123
        del: js_add.simps)
  have b: "res_creditTotal (cumulative_gpa ?b) = Number (Finite (5404319552844595 / 9007199254740992))"
    by (simp add: creditTotal_sum js_sum_def credit_record_def tenths_values tenths_sum_321
        del: js_add.simps)
  have "res_creditTotal (cumulative_gpa ?a) \<noteq> res_creditTotal (cumulative_gpa ?b)"
    unfolding a b by simp
  then have "cumulative_gpa ?a \<noteq> cumulative_gpa ?b" by auto
  with a b show ?thesis by simp
qed

text \<open>
  Claim C10. For every non-empty sequence of grade records whose credit hours sum to 0 (as the
  handler sums them), the division is not carried out: the GPA computed is the number 0,
  returned as the text \<open>0.00\<close> (not \<open>NaN\<close>, not \<open>Infinity\<close>), and the credit total
  returned is 0. The grade handler stores a record with credit hours 0, so such sequences
  occur.
\<close>

theorem gpa_division_guarded:
  assumes "records \<noteq> []" "js_sum (map creditHours records) = Finite 0"
  shows "finalGPA (foldl reduce_step \<lparr>totalGPA = Finite 0, totalCredit = Finite 0\<rparr> records) = Finite 0
     \<and> cumulative_gpa records
       = \<lparr>res_gpa = String (Text ''0.00''), res_creditTotal = Number (Finite 0)\<rparr>"
  using assms
  by (simp add: cumulative_gpa_sums finalGPA_def foldl_reduce_step js_sum_def toFixed2_0)

theorem gpa_division_guarded_witness:
  "get_gpa (snd (post_grade [] ''alice'' 1 1000 (Some ''Math'') (Some (Finite 90)) (Some (Finite 0))))
      ''alice''
     = \<lparr>res_gpa = String (Text ''0.00''), res_creditTotal = Number (Finite 0)\<rparr>
   \<and> cumulative_gpa [credit_record 1 (Finite 2), credit_record 2 (Finite (- 2))]
     = \<lparr>res_gpa = String (Text ''0.00''), res_creditTotal = Number (Finite 0)\<rparr>"
proof -
  have a: "[credit_record 1 (Finite 0)] \<noteq> []"
    and b: "js_sum (map creditHours [credit_record 1 (Finite 0)]) = Finite 0"
    and c: "[credit_record 1 (Finite 2), credit_record 2 (Finite (- 2))] \<noteq> []"
    and d: "js_sum (map creditHours [credit_record 1 (Finite 2), credit_record 2 (Finite (- 2))])
      = Finite 0"
    by (simp_all add: js_sum_def credit_record_def round_double_samples)
  from gpa_division_guarded [OF a b] gpa_division_guarded [OF c d] show ?thesis
    by (simp add: post_grade_credit_record get_gpa_def credit_record_def)
qed

end
